theory Spec2Isabelle
  imports Main "HOL-Library.List_Lexorder" "HOL-Library.Char_ord"
begin

section \<open>Credential checks of sky/check.py\<close>

text \<open>
  A shallow embedding of \<^verbatim>\<open>check_capabilities\<close>, \<^verbatim>\<open>check_capability\<close> and
  \<^verbatim>\<open>get_cached_enabled_clouds_or_refresh\<close> of \<^verbatim>\<open>sky/check.py\<close>.
  The collaborators the module imports (the cloud registry, the Cloudflare adaptor, the
  configuration, the providers' own credential checks) are the fields of an environment
  record; the enabled-cloud cache of \<^verbatim>\<open>global_user_state\<close> and the calls the
  code makes to the outside are the fields of a state record that every function takes and
  returns. An exception is a value \<open>Inl err\<close>.
\<close>

subsection \<open>Python strings\<close>

text \<open>
  A Python \<^verbatim>\<open>str\<close> is a list of characters, each read as a code point below 256.
  \<^verbatim>\<open>str.isspace\<close> holds on that range for U+0009..U+000D, U+001C..U+0020, U+0085
  and U+00A0; \<^verbatim>\<open>str.strip()\<close> removes such characters at both ends.
\<close>

definition isspace :: "char \<Rightarrow> bool" where
  "isspace c =
     (let n = (of_char c :: nat)
      in (9 \<le> n \<and> n \<le> 13) \<or> (28 \<le> n \<and> n \<le> 32) \<or> n = 133 \<or> n = 160)"

definition lstrip :: "string \<Rightarrow> string" where
  "lstrip s = dropWhile isspace s"

definition rstrip :: "string \<Rightarrow> string" where
  "rstrip s = rev (dropWhile isspace (rev s))"

definition strip :: "string \<Rightarrow> string" where
  "strip s = rstrip (lstrip s)"

text \<open>
  \<^verbatim>\<open>str.lower()\<close>: the letters A..Z, and the capital letters of U+00C0..U+00DE
  (U+00D7, the multiplication sign, is no letter), move up by 32.
\<close>

definition lower_char :: "char \<Rightarrow> char" where
  "lower_char c =
     (let n = (of_char c :: nat)
      in if (65 \<le> n \<and> n \<le> 90) \<or> (192 \<le> n \<and> n \<le> 222 \<and> n \<noteq> 215)
         then char_of (n + 32) else c)"

definition lower :: "string \<Rightarrow> string" where
  "lower s = map lower_char s"

definition startswith :: "string \<Rightarrow> string \<Rightarrow> bool" where
  "startswith s pre = (take (length pre) s = pre)"

text \<open>
  \<^verbatim>\<open>traceback.format_exc()\<close> renders the exception being handled: the header line of
  every Python traceback, then the stack frames and the line of the exception itself
  (the argument).
\<close>

definition format_exc :: "string \<Rightarrow> string" where
  "format_exc frames = ''Traceback (most recent call last):'' @ [CHR 0x0A] @ frames"

subsection \<open>Python dictionaries, in insertion order\<close>

text \<open>\<^verbatim>\<open>d.setdefault(k, []).append(v)\<close>, and the same on a \<^verbatim>\<open>defaultdict(list)\<close>.\<close>

fun setdefault_append :: "'k \<Rightarrow> 'v \<Rightarrow> ('k \<times> 'v list) list \<Rightarrow> ('k \<times> 'v list) list" where
  "setdefault_append k v [] = [(k, [v])]"
| "setdefault_append k v ((k', vs) # d) =
     (if k = k' then (k', vs @ [v]) # d else (k', vs) # setdefault_append k v d)"

text \<open>\<^verbatim>\<open>d[k] = v\<close>\<close>

fun setitem :: "'k \<Rightarrow> 'v \<Rightarrow> ('k \<times> 'v) list \<Rightarrow> ('k \<times> 'v) list" where
  "setitem k v [] = [(k, v)]"
| "setitem k v ((k', v') # d) =
     (if k = k' then (k', v) # d else (k', v') # setitem k v d)"

text \<open>\<^verbatim>\<open>d.get(k, default)\<close>\<close>

definition dict_get :: "('k \<times> 'v) list \<Rightarrow> 'k \<Rightarrow> 'v \<Rightarrow> 'v" where
  "dict_get d k dflt = (case map_of d k of None \<Rightarrow> dflt | Some v \<Rightarrow> v)"

subsection \<open>Data model\<close>

text \<open>
  Modelled from the spec: \<^verbatim>\<open>sky_cloud.CloudCapability\<close> and
  \<^verbatim>\<open>sky_cloud.ALL_CAPABILITIES\<close>, which \<^verbatim>\<open>sky/clouds/cloud.py\<close> declares: an
  enumerated tag with the members COMPUTE and STORAGE, and the list of all of them.
\<close>

datatype CloudCapability = COMPUTE | STORAGE

definition ALL_CAPABILITIES :: "CloudCapability list" where
  "ALL_CAPABILITIES = [COMPUTE, STORAGE]"

text \<open>
  What \<^verbatim>\<open>get_cloud_tuple\<close> pairs with a name: a cloud object of the registry, known
  by its \<^verbatim>\<open>repr\<close>, or the \<^verbatim>\<open>cloudflare\<close> adaptor module.
\<close>

datatype cloud_obj = Cloud string | CloudflareModule

type_synonym cloud_tuple = "string \<times> cloud_obj"

text \<open>
  The reason a check gives: a string, or a dictionary from context name to status text
  (Kubernetes and SSH); \<^verbatim>\<open>None\<close> is the \<open>None\<close> of \<open>reason option\<close>.
\<close>

datatype reason = Text string | Ctx2Text "(string \<times> string) list"

type_synonym check_result = "CloudCapability \<times> bool \<times> reason option"

text \<open>
  What one call \<^verbatim>\<open>cloud.check_credentials(capability)\<close> does: it returns
  \<^verbatim>\<open>(ok, reason)\<close>, raises \<^verbatim>\<open>exceptions.NotSupportedError\<close>, or raises another
  \<^verbatim>\<open>Exception\<close>, which carries what the traceback prints below its header.
\<close>

datatype exn = NotSupportedError | OtherException string

datatype check_behaviour = Returns bool "reason option" | Raises exn

text \<open>
  The exceptions that leave the functions of the module. The assertion of
  \<^verbatim>\<open>get_cloud_tuple\<close> carries the name that was not found.
\<close>

datatype error = AssertionError string | SystemExit | NoCloudAccessError

text \<open>
  The collaborators: \<^verbatim>\<open>registry.CLOUD_REGISTRY.from_str\<close> (the \<^verbatim>\<open>repr\<close> of the
  cloud it finds, \<^verbatim>\<open>None\<close> when there is none), the \<^verbatim>\<open>repr\<close>s of
  \<^verbatim>\<open>registry.CLOUD_REGISTRY.values()\<close>, \<^verbatim>\<open>cloudflare.NAME\<close>, the value of
  \<^verbatim>\<open>allowed_clouds\<close> in the configuration (\<open>None\<close> when the key is not set), and the
  credential check of every cloud object.
\<close>

record env =
  registry_from_str :: "string \<Rightarrow> string option"
  registry_values :: "string list"
  cloudflare_NAME :: string
  allowed_clouds :: "string list option"
  check_credentials :: "cloud_obj \<Rightarrow> CloudCapability \<Rightarrow> check_behaviour"

text \<open>
  Modelled from the spec: the cache store of \<^verbatim>\<open>sky/global_user_state.py\<close>, a keyed
  get and set of a set of provider names per capability
  (\<^verbatim>\<open>get_cached_enabled_clouds\<close>, \<^verbatim>\<open>set_enabled_clouds\<close>). The field
  \<open>cache\<close> is the store. The other fields are the calls made so far, oldest first:
  \<open>set_calls\<close> the calls of \<^verbatim>\<open>set_enabled_clouds\<close>, \<open>probes\<close> the calls of
  \<^verbatim>\<open>check_credentials\<close>, \<open>printed\<close> the calls of \<^verbatim>\<open>_print_checked_cloud\<close> with
  their arguments (\<open>quiet\<close> stands for the \<^verbatim>\<open>echo\<close> it selects). The text that
  \<^verbatim>\<open>echo\<close> prints is not modelled.
\<close>

record world =
  cache :: "CloudCapability \<Rightarrow> string set"
  set_calls :: "(string set \<times> CloudCapability) list"
  probes :: "(cloud_obj \<times> CloudCapability) list"
  printed :: "(bool \<times> bool \<times> cloud_tuple \<times> check_result list \<times> (string \<times> string) list) list"

definition get_cached_enabled_clouds :: "world \<Rightarrow> CloudCapability \<Rightarrow> string set" where
  "get_cached_enabled_clouds w capability = cache w capability"

definition set_enabled_clouds :: "string set \<Rightarrow> CloudCapability \<Rightarrow> world \<Rightarrow> world" where
  "set_enabled_clouds enabled capability w =
     w\<lparr>cache := (cache w)(capability := enabled),
       set_calls := set_calls w @ [(enabled, capability)]\<rparr>"

subsection \<open>The probe adapter\<close>

text \<open>Lines 56 and 57: a reason that is no dictionary is stripped when truthy, else None.\<close>

fun normalize_reason :: "reason option \<Rightarrow> reason option" where
  "normalize_reason (Some (Ctx2Text d)) = Some (Ctx2Text d)"
| "normalize_reason (Some (Text s)) = (if s \<noteq> [] then Some (Text (strip s)) else None)"
| "normalize_reason None = None"

definition check_one_cloud_one_capability ::
  "env \<Rightarrow> cloud_tuple \<times> CloudCapability \<Rightarrow> check_result option" where
  "check_one_cloud_one_capability e payload =
     (let (cloud_tuple, capability) = payload;
          (_, cloud) = cloud_tuple
      in case check_credentials e cloud capability of
           Raises NotSupportedError \<Rightarrow> None
         | Raises (OtherException frames) \<Rightarrow>
             Some (capability, False, normalize_reason (Some (Text (format_exc frames))))
         | Returns ok reason \<Rightarrow> Some (capability, ok, normalize_reason reason))"

subsection \<open>The matrix of clouds and capabilities\<close>

definition get_cloud_tuple :: "env \<Rightarrow> string \<Rightarrow> error + cloud_tuple" where
  "get_cloud_tuple e cloud_name =
     (if startswith (lower cloud_name) ''cloudflare''
      then Inr (cloudflare_NAME e, CloudflareModule)
      else (case registry_from_str e cloud_name of
              None \<Rightarrow> Inl (AssertionError cloud_name)
            | Some cloud_repr \<Rightarrow> Inr (cloud_repr, Cloud cloud_repr)))"

definition get_all_clouds :: "env \<Rightarrow> string list" where
  "get_all_clouds e = registry_values e @ [cloudflare_NAME e]"

text \<open>A list comprehension over a function that may raise: the first exception ends it.\<close>

fun map_raise :: "('a \<Rightarrow> error + 'b) \<Rightarrow> 'a list \<Rightarrow> error + 'b list" where
  "map_raise f [] = Inr []"
| "map_raise f (x # xs) =
     (case f x of
        Inl err \<Rightarrow> Inl err
      | Inr y \<Rightarrow> (case map_raise f xs of Inl err \<Rightarrow> Inl err | Inr ys \<Rightarrow> Inr (y # ys)))"

text \<open>Lines 83 to 86.\<close>

definition config_allowed_cloud_names :: "env \<Rightarrow> error + string list" where
  "config_allowed_cloud_names e =
     (case map_raise (get_cloud_tuple e)
             (case allowed_clouds e of None \<Rightarrow> get_all_clouds e | Some cs \<Rightarrow> cs) of
        Inl err \<Rightarrow> Inl err
      | Inr tuples \<Rightarrow> Inr (sort (map fst tuples)))"

subsection \<open>The dispatcher\<close>

text \<open>
  Modelled from the spec: \<^verbatim>\<open>subprocess_utils.run_in_parallel\<close> of
  \<^verbatim>\<open>sky/utils/subprocess_utils.py\<close>, which runs the function on every argument and
  returns the results in the order of the arguments; an empty list gives an empty list.
\<close>

definition run_in_parallel :: "('a \<Rightarrow> 'b) \<Rightarrow> 'a list \<Rightarrow> 'b list" where
  "run_in_parallel func args = map func args"

text \<open>
  Lines 99 and 100: every combination is probed, and each probe is one call of
  \<^verbatim>\<open>check_credentials\<close>.
\<close>

definition dispatch ::
  "env \<Rightarrow> (cloud_tuple \<times> CloudCapability) list \<Rightarrow> world \<Rightarrow> check_result option list \<times> world" where
  "dispatch e combinations w =
     (run_in_parallel (check_one_cloud_one_capability e) combinations,
      w\<lparr>probes := probes w @ map (\<lambda>(cloud_tuple, capability). (snd cloud_tuple, capability)) combinations\<rparr>)"

subsection \<open>The aggregator\<close>

record aggregate =
  enabled_clouds :: "(string \<times> CloudCapability list) list"
  disabled_clouds :: "(string \<times> CloudCapability list) list"
  cloud2ctx2text :: "(string \<times> (string \<times> string) list) list"
  check_results_dict :: "(cloud_tuple \<times> check_result list) list"

definition empty_aggregate :: aggregate where
  "empty_aggregate =
     \<lparr>enabled_clouds = [], disabled_clouds = [], cloud2ctx2text = [], check_results_dict = []\<rparr>"

text \<open>The body of the loop of lines 109 to 121.\<close>

definition aggregate_step ::
  "aggregate \<Rightarrow> (cloud_tuple \<times> CloudCapability) \<times> check_result option \<Rightarrow> aggregate" where
  "aggregate_step a item =
     (let (combination, check_result) = item
      in case check_result of
           None \<Rightarrow> a
         | Some (capability, ok, ctx2text) \<Rightarrow>
             (let cloud_tuple = fst combination;
                  cloud_repr = fst cloud_tuple;
                  a1 = (case ctx2text of
                          Some (Ctx2Text d) \<Rightarrow>
                            a\<lparr>cloud2ctx2text := setitem cloud_repr d (cloud2ctx2text a)\<rparr>
                        | _ \<Rightarrow> a);
                  a2 = (if ok
                        then a1\<lparr>enabled_clouds :=
                                  setdefault_append cloud_repr capability (enabled_clouds a1)\<rparr>
                        else a1\<lparr>disabled_clouds :=
                                  setdefault_append cloud_repr capability (disabled_clouds a1)\<rparr>)
              in a2\<lparr>check_results_dict :=
                      setdefault_append cloud_tuple (capability, ok, ctx2text)
                        (check_results_dict a2)\<rparr>))"

definition aggregate_results ::
  "(cloud_tuple \<times> CloudCapability) list \<Rightarrow> check_result option list \<Rightarrow> aggregate" where
  "aggregate_results combinations check_results =
     foldl aggregate_step empty_aggregate (zip combinations check_results)"

text \<open>Lines 123 to 126: one call of \<^verbatim>\<open>_print_checked_cloud\<close> per cloud, sorted by name.\<close>

definition print_checked_clouds :: "bool \<Rightarrow> bool \<Rightarrow> aggregate \<Rightarrow> world \<Rightarrow> world" where
  "print_checked_clouds quiet verbose a w =
     w\<lparr>printed := printed w @
         map (\<lambda>(cloud_tuple, check_result_list).
                (quiet, verbose, cloud_tuple, check_result_list,
                 dict_get (cloud2ctx2text a) (fst cloud_tuple) []))
             (sort_key (\<lambda>item. fst (fst item)) (check_results_dict a))\<rparr>"

subsection \<open>The reconciler\<close>

text \<open>Lines 138 to 145, for either dictionary.\<close>

definition clouds_with :: "(string \<times> CloudCapability list) list \<Rightarrow> CloudCapability \<Rightarrow> string set" where
  "clouds_with d capability =
     set (map fst (filter (\<lambda>(cloud, capabilities).
            capability \<in> set capabilities \<and> \<not> startswith cloud ''Cloudflare'') d))"

text \<open>Lines 146 to 149.\<close>

definition config_allowed_clouds_set :: "string list \<Rightarrow> string set" where
  "config_allowed_clouds_set names =
     set (filter (\<lambda>cloud. \<not> startswith cloud ''Cloudflare'') names)"

text \<open>Lines 154 to 156.\<close>

definition enabled_clouds_for_capability ::
  "string set \<Rightarrow> string set \<Rightarrow> string set \<Rightarrow> string set \<Rightarrow> string set" where
  "enabled_clouds_for_capability config_allowed previously_enabled enabled disabled =
     config_allowed \<inter> ((previously_enabled \<union> enabled) - disabled)"

text \<open>Lines 138 to 156: the enabled clouds of one capability, from the cache as it is.\<close>

definition reconcile :: "string list \<Rightarrow> aggregate \<Rightarrow> world \<Rightarrow> CloudCapability \<Rightarrow> string set" where
  "reconcile names a w capability =
     (let enabled_clouds_set = clouds_with (enabled_clouds a) capability;
          disabled_clouds_set = clouds_with (disabled_clouds a) capability;
          allowed_set = config_allowed_clouds_set names;
          previously_enabled_clouds_set = get_cached_enabled_clouds w capability
      in enabled_clouds_for_capability allowed_set previously_enabled_clouds_set
           enabled_clouds_set disabled_clouds_set)"

text \<open>The loop of lines 134 to 160, on the pair of \<^verbatim>\<open>all_enabled_clouds\<close> and the state.\<close>

fun reconcile_loop ::
  "string list \<Rightarrow> aggregate \<Rightarrow> CloudCapability list \<Rightarrow> string set \<times> world \<Rightarrow> string set \<times> world" where
  "reconcile_loop names a [] (all_enabled_clouds, w) = (all_enabled_clouds, w)"
| "reconcile_loop names a (capability # rest) (all_enabled_clouds, w) =
     (let new_enabled = reconcile names a w capability
      in reconcile_loop names a rest
           (all_enabled_clouds \<union> new_enabled, set_enabled_clouds new_enabled capability w))"

subsection \<open>check_capabilities and its callers\<close>

text \<open>Lines 37 and 38.\<close>

definition requested_capabilities :: "CloudCapability list option \<Rightarrow> CloudCapability list" where
  "requested_capabilities capabilities_arg =
     (case capabilities_arg of None \<Rightarrow> ALL_CAPABILITIES | Some cs \<Rightarrow> cs)"

text \<open>
  Lines 75 to 95: the tuples of the clouds to check, those of the requested clouds whose
  name is in \<^verbatim>\<open>config_allowed_cloud_names\<close>, and that list of names.
\<close>

definition clouds_to_check :: "env \<Rightarrow> string list option \<Rightarrow> error + (cloud_tuple list \<times> string list)" where
  "clouds_to_check e clouds =
     (let cloud_list = (case clouds of Some cs \<Rightarrow> cs | None \<Rightarrow> get_all_clouds e)
      in case map_raise (get_cloud_tuple e) cloud_list of
           Inl err \<Rightarrow> Inl err
         | Inr all_tuples \<Rightarrow>
             (case config_allowed_cloud_names e of
                Inl err \<Rightarrow> Inl err
              | Inr names \<Rightarrow> Inr (filter (\<lambda>c. fst c \<in> set names) all_tuples, names)))"

definition check_capabilities ::
  "env \<Rightarrow> world \<Rightarrow> bool \<Rightarrow> bool \<Rightarrow> string list option \<Rightarrow> CloudCapability list option
     \<Rightarrow> (error + (string \<times> CloudCapability list) list) \<times> world" where
  "check_capabilities e w quiet verbose clouds capabilities_arg =
     (let capabilities = requested_capabilities capabilities_arg
      in case clouds_to_check e clouds of
           Inl err \<Rightarrow> (Inl err, w)
         | Inr (tuples, names) \<Rightarrow>
             (let combinations = List.product tuples capabilities;
                  (check_results, w1) = dispatch e combinations w;
                  a = aggregate_results combinations check_results;
                  w2 = print_checked_clouds quiet verbose a w1;
                  (all_enabled_clouds, w3) = reconcile_loop names a capabilities ({}, w2)
              in if all_enabled_clouds = {} then (Inl SystemExit, w3)
                 else (Inr (enabled_clouds a), w3)))"

definition check_capability ::
  "env \<Rightarrow> world \<Rightarrow> CloudCapability \<Rightarrow> bool \<Rightarrow> bool \<Rightarrow> string list option
     \<Rightarrow> (error + string list) \<times> world" where
  "check_capability e w capability quiet verbose clouds =
     (case check_capabilities e w quiet verbose clouds (Some [capability]) of
        (Inl err, w') \<Rightarrow> (Inl err, w')
      | (Inr enabled, w') \<Rightarrow>
          (Inr (map fst (filter (\<lambda>(cloud, capabilities). capability \<in> set capabilities) enabled)),
           w'))"

definition get_cached_enabled_clouds_or_refresh ::
  "env \<Rightarrow> world \<Rightarrow> CloudCapability \<Rightarrow> bool \<Rightarrow> (error + string set) \<times> world" where
  "get_cached_enabled_clouds_or_refresh e w capability raise_if_no_cloud_access =
     (let cached_enabled_clouds = get_cached_enabled_clouds w capability;
          finish = (\<lambda>w'. let cached = get_cached_enabled_clouds w' capability
                         in if raise_if_no_cloud_access \<and> cached = {}
                            then (Inl NoCloudAccessError, w') else (Inr cached, w'))
      in if cached_enabled_clouds = {}
         then (case check_capability e w COMPUTE True False None of
                 (Inl SystemExit, w') \<Rightarrow> finish w'
               | (Inl err, w') \<Rightarrow> (Inl err, w')
               | (Inr _, w') \<Rightarrow> finish w')
         else finish w)"

subsection \<open>What a pass found\<close>

text \<open>
  The pairs of a key and an entry of its list, as
  \<^verbatim>\<open>for cloud, capabilities in d.items() if capability in capabilities\<close> reads them.
\<close>

definition dict_pairs :: "('k \<times> 'v list) list \<Rightarrow> ('k \<times> 'v) set" where
  "dict_pairs d = (\<Union>(k, vs)\<in>set d. Pair k ` set vs)"

text \<open>
  A probe passes when the check returns a true flag. It fails when the check returns a
  false flag or raises an exception other than NotSupportedError.
\<close>

definition probe_passes :: "env \<Rightarrow> cloud_tuple \<times> CloudCapability \<Rightarrow> bool" where
  "probe_passes e p =
     (case check_credentials e (snd (fst p)) (snd p) of
        Returns ok _ \<Rightarrow> ok | Raises _ \<Rightarrow> False)"

definition probe_fails :: "env \<Rightarrow> cloud_tuple \<times> CloudCapability \<Rightarrow> bool" where
  "probe_fails e p =
     (case check_credentials e (snd (fst p)) (snd p) of
        Returns ok _ \<Rightarrow> \<not> ok
      | Raises NotSupportedError \<Rightarrow> False
      | Raises (OtherException _) \<Rightarrow> True)"

definition passed_this_pass :: "env \<Rightarrow> cloud_tuple list \<Rightarrow> CloudCapability \<Rightarrow> string set" where
  "passed_this_pass e tuples capability =
     set (map fst (filter (\<lambda>t. probe_passes e (t, capability)) tuples))"

definition failed_this_pass :: "env \<Rightarrow> cloud_tuple list \<Rightarrow> CloudCapability \<Rightarrow> string set" where
  "failed_this_pass e tuples capability =
     set (map fst (filter (\<lambda>t. probe_fails e (t, capability)) tuples))"

text \<open>
  The aggregate of a pass: lines 97 to 121 on the product of the clouds to check and the
  capabilities.
\<close>

definition pass_aggregate :: "env \<Rightarrow> cloud_tuple list \<Rightarrow> CloudCapability list \<Rightarrow> aggregate" where
  "pass_aggregate e tuples capabilities =
     (let combinations = List.product tuples capabilities
      in aggregate_results combinations
           (run_in_parallel (check_one_cloud_one_capability e) combinations))"

text \<open>A set of names without the pseudo-providers, whose names start with Cloudflare.\<close>

definition not_pseudo :: "string set \<Rightarrow> string set" where
  "not_pseudo S = {cloud \<in> S. \<not> startswith cloud ''Cloudflare''}"

subsection \<open>An example installation\<close>

text \<open>
  Two clouds in the registry, no \<^verbatim>\<open>allowed_clouds\<close> in the configuration. The AWS
  compute check passes, the GCP compute check raises an unexpected exception, the storage
  check of both fails with a padded reason, and Cloudflare supports storage only.
\<close>

definition example_env :: env where
  "example_env =
     \<lparr>registry_from_str = (\<lambda>s. if lower s = ''aws'' then Some ''AWS''
                                 else if lower s = ''gcp'' then Some ''GCP'' else None),
      registry_values = [''AWS'', ''GCP''],
      cloudflare_NAME = ''Cloudflare'',
      allowed_clouds = None,
      check_credentials = (\<lambda>cloud capability.
        case (cloud, capability) of
          (Cloud n, COMPUTE) \<Rightarrow>
            if n = ''AWS'' then Returns True None else Raises (OtherException ''KeyError: 1'')
        | (Cloud n, STORAGE) \<Rightarrow> Returns False (Some (Text ''  no creds  ''))
        | (CloudflareModule, COMPUTE) \<Rightarrow> Raises NotSupportedError
        | (CloudflareModule, STORAGE) \<Rightarrow> Returns True (Some (Ctx2Text [(''r2'', ''enabled'')])))\<rparr>"

definition empty_world :: world where
  "empty_world = \<lparr>cache = (\<lambda>_. {}), set_calls = [], probes = [], printed = []\<rparr>"

text \<open>A state whose cache holds the given clouds for COMPUTE and none for STORAGE.\<close>

definition cached_world :: "string set \<Rightarrow> world" where
  "cached_world S =
     \<lparr>cache = (\<lambda>capability. if capability = COMPUTE then S else {}),
      set_calls = [], probes = [], printed = []\<rparr>"

text \<open>The example with an allow-list of GCP alone in the configuration.\<close>

definition restricted_env :: env where
  "restricted_env = example_env\<lparr>allowed_clouds := Some [''gcp'']\<rparr>"

section \<open>Properties\<close>

subsection \<open>Stripping\<close>

lemma lstrip_decomp: "\<exists>pre. s = pre @ lstrip s \<and> (\<forall>c\<in>set pre. isspace c)"
proof -
  have "s = takeWhile isspace s @ lstrip s" by (simp add: lstrip_def)
  moreover have "\<forall>c\<in>set (takeWhile isspace s). isspace c" by (auto dest: set_takeWhileD)
  ultimately show ?thesis by blast
qed

lemma rstrip_decomp: "\<exists>post. s = rstrip s @ post \<and> (\<forall>c\<in>set post. isspace c)"
proof -
  have "rstrip s @ rev (takeWhile isspace (rev s)) =
        rev (takeWhile isspace (rev s) @ dropWhile isspace (rev s))"
    by (simp only: rstrip_def rev_append)
  also have "\<dots> = s" by (simp only: takeWhile_dropWhile_id rev_rev_ident)
  finally have "s = rstrip s @ rev (takeWhile isspace (rev s))" by simp
  moreover have "\<forall>c\<in>set (rev (takeWhile isspace (rev s))). isspace c"
    by (auto dest: set_takeWhileD)
  ultimately show ?thesis by blast
qed

lemma strip_decomp:
  "\<exists>pre post. s = pre @ strip s @ post \<and> (\<forall>c\<in>set pre. isspace c) \<and> (\<forall>c\<in>set post. isspace c)"
proof -
  obtain pre where pre: "s = pre @ lstrip s" "\<forall>c\<in>set pre. isspace c"
    using lstrip_decomp by blast
  obtain post where post: "lstrip s = rstrip (lstrip s) @ post" "\<forall>c\<in>set post. isspace c"
    using rstrip_decomp by blast
  have "s = pre @ strip s @ post" using pre(1) post(1) by (simp add: strip_def)
  with pre(2) post(2) show ?thesis by blast
qed

lemma lstrip_hd: "lstrip s \<noteq> [] \<Longrightarrow> \<not> isspace (hd (lstrip s))"
  unfolding lstrip_def by (simp add: hd_dropWhile)

lemma rstrip_last: "rstrip s \<noteq> [] \<Longrightarrow> \<not> isspace (last (rstrip s))"
  unfolding rstrip_def by (simp add: last_rev hd_dropWhile)

lemma rstrip_hd: "s \<noteq> [] \<Longrightarrow> \<not> isspace (hd s) \<Longrightarrow> rstrip s \<noteq> [] \<and> hd (rstrip s) = hd s"
proof (induction s rule: rev_induct)
  case Nil
  then show ?case by simp
next
  case (snoc x xs)
  show ?case
  proof (cases "isspace x")
    case False
    then show ?thesis by (simp add: rstrip_def)
  next
    case True
    then have eq: "rstrip (xs @ [x]) = rstrip xs" by (simp add: rstrip_def)
    from True snoc.prems have "xs \<noteq> []" by auto
    with snoc show ?thesis using eq by (cases xs) auto
  qed
qed

lemma strip_ends:
  "strip s \<noteq> [] \<Longrightarrow> \<not> isspace (hd (strip s)) \<and> \<not> isspace (last (strip s))"
proof -
  assume ne: "strip s \<noteq> []"
  then have l: "lstrip s \<noteq> []" by (auto simp: strip_def rstrip_def)
  have "\<not> isspace (hd (lstrip s))" using l by (rule lstrip_hd)
  with l have "hd (rstrip (lstrip s)) = hd (lstrip s)" using rstrip_hd by blast
  with \<open>\<not> isspace (hd (lstrip s))\<close> have "\<not> isspace (hd (strip s))" by (simp add: strip_def)
  moreover have "\<not> isspace (last (strip s))" using ne rstrip_last by (simp add: strip_def)
  ultimately show ?thesis by simp
qed




subsection \<open>Reconciliation is idempotent\<close>

text \<open>
  C6. Reconciliation is idempotent: with the same allow-list and the same sets of passed
  and failed providers, reconciling the reconciled state again gives the same state.
\<close>

theorem reconcile_idempotent:
  "enabled_clouds_for_capability allowed
     (enabled_clouds_for_capability allowed S passed failed) passed failed =
   enabled_clouds_for_capability allowed S passed failed"
  by (auto simp: enabled_clouds_for_capability_def)

subsection \<open>The probe adapter\<close>

text \<open>
  C7. When the check returns, the adapter keeps the flag and normalises the reason: a
  dictionary passes through as it is; a string that is not empty is replaced by the part
  of it between its leading and its trailing whitespace; the empty string and None give
  no reason.
\<close>

theorem adapter_normalizes_reason:
  assumes "check_credentials e cloud capability = Returns ok reason"
  shows "\<exists>r. check_one_cloud_one_capability e ((name, cloud), capability) = Some (capability, ok, r) \<and>
    (case reason of
       Some (Ctx2Text d) \<Rightarrow> r = Some (Ctx2Text d)
     | Some (Text s) \<Rightarrow>
         if s = [] then r = None
         else \<exists>t pre post. r = Some (Text t) \<and> s = pre @ t @ post \<and>
                (\<forall>c\<in>set pre. isspace c) \<and> (\<forall>c\<in>set post. isspace c) \<and>
                (t \<noteq> [] \<longrightarrow> \<not> isspace (hd t) \<and> \<not> isspace (last t))
     | None \<Rightarrow> r = None)"
proof -
  have run: "check_one_cloud_one_capability e ((name, cloud), capability) =
             Some (capability, ok, normalize_reason reason)"
    using assms by (simp add: check_one_cloud_one_capability_def)
  show ?thesis
  proof (cases reason)
    case None
    with run show ?thesis by simp
  next
    case (Some x)
    show ?thesis
    proof (cases x)
      case (Ctx2Text d)
      with Some run show ?thesis by simp
    next
      case (Text s)
      show ?thesis
      proof (cases "s = []")
        case True
        with Text Some run show ?thesis by simp
      next
        case False
        obtain pre post where d: "s = pre @ strip s @ post"
          "\<forall>c\<in>set pre. isspace c" "\<forall>c\<in>set post. isspace c"
          using strip_decomp by blast
        have "strip s \<noteq> [] \<longrightarrow> \<not> isspace (hd (strip s)) \<and> \<not> isspace (last (strip s))"
          using strip_ends by blast
        with d have "\<exists>t pre post. Some (Text (strip s)) = Some (Text t) \<and> s = pre @ t @ post \<and>
                (\<forall>c\<in>set pre. isspace c) \<and> (\<forall>c\<in>set post. isspace c) \<and>
                (t \<noteq> [] \<longrightarrow> \<not> isspace (hd t) \<and> \<not> isspace (last t))"
          by blast
        with False Text Some run show ?thesis by simp
      qed
    qed
  qed
qed

theorem adapter_normalizes_reason_witness:
  "check_credentials example_env (Cloud ''GCP'') STORAGE = Returns False (Some (Text ''  no creds  '')) \<and>
   check_one_cloud_one_capability example_env ((''GCP'', Cloud ''GCP''), STORAGE) =
     Some (STORAGE, False, Some (Text ''no creds''))"
proof -
  have h: "check_credentials example_env (Cloud ''GCP'') STORAGE =
           Returns False (Some (Text ''  no creds  ''))"
    by (simp add: example_env_def)
  have "check_one_cloud_one_capability example_env ((''GCP'', Cloud ''GCP''), STORAGE) =
     Some (STORAGE, False, Some (Text ''no creds''))"
    using adapter_normalizes_reason [OF h, of "''GCP''"]
    by (simp add: check_one_cloud_one_capability_def h strip_def lstrip_def rstrip_def isspace_def)
  with h show ?thesis by simp
qed

text \<open>
  The test of line 57 is on the string as the check returned it: a string of whitespace
  alone is truthy, and stripping leaves the empty string as the reason, not None.
\<close>

lemma whitespace_reason_kept:
  assumes "check_credentials e cloud capability = Returns ok (Some (Text s))"
    and "s \<noteq> []" and "\<forall>c\<in>set s. isspace c"
  shows "check_one_cloud_one_capability e ((name, cloud), capability) =
         Some (capability, ok, Some (Text []))"
proof -
  from assms(3) have "lstrip s = []" by (simp add: lstrip_def)
  then have "strip s = []" by (simp add: strip_def rstrip_def)
  with assms(1,2) show ?thesis by (simp add: check_one_cloud_one_capability_def)
qed

subsection \<open>The aggregator collects what the probes return\<close>

lemma dict_pairs_Nil: "dict_pairs [] = {}"
  by (simp add: dict_pairs_def)

lemma dict_pairs_Cons: "dict_pairs ((k, vs) # d) = Pair k ` set vs \<union> dict_pairs d"
  by (simp add: dict_pairs_def)

lemma dict_pairs_setdefault_append:
  "dict_pairs (setdefault_append k v d) = insert (k, v) (dict_pairs d)"
proof (induction d)
  case Nil
  then show ?case by (simp add: dict_pairs_Nil dict_pairs_Cons)
next
  case (Cons item d)
  obtain k' vs where item: "item = (k', vs)" by (cases item)
  show ?case unfolding item using Cons.IH by (auto simp: dict_pairs_Cons)
qed

lemma check_one_None:
  "check_one_cloud_one_capability e (t, c) = None \<longleftrightarrow>
   check_credentials e (snd t) c = Raises NotSupportedError"
  by (cases t)
     (auto simp: check_one_cloud_one_capability_def split: check_behaviour.splits exn.splits)

lemma check_one_Some:
  "check_one_cloud_one_capability e (t, c) = Some (c', ok, r) \<Longrightarrow>
   c' = c \<and> (ok \<longleftrightarrow> probe_passes e (t, c)) \<and> (\<not> ok \<longleftrightarrow> probe_fails e (t, c))"
  by (cases t)
     (auto simp: check_one_cloud_one_capability_def probe_passes_def probe_fails_def
           split: check_behaviour.splits exn.splits)

lemma probe_passes_Some:
  "probe_passes e (t, c) \<Longrightarrow> \<exists>r. check_one_cloud_one_capability e (t, c) = Some (c, True, r)"
  by (cases t)
     (auto simp: check_one_cloud_one_capability_def probe_passes_def
           split: check_behaviour.splits exn.splits)

lemma probe_fails_Some:
  "probe_fails e (t, c) \<Longrightarrow> \<exists>r. check_one_cloud_one_capability e (t, c) = Some (c, False, r)"
  by (cases t)
     (auto simp: check_one_cloud_one_capability_def probe_fails_def
           split: check_behaviour.splits exn.splits)

lemma aggregate_step_enabled:
  "dict_pairs (enabled_clouds (aggregate_step a ((t, c'), res))) =
   dict_pairs (enabled_clouds a) \<union> {(fst t, c) |c r. res = Some (c, True, r)}"
  by (auto simp: aggregate_step_def dict_pairs_setdefault_append Let_def
           split: option.splits reason.splits)

lemma aggregate_step_disabled:
  "dict_pairs (disabled_clouds (aggregate_step a ((t, c'), res))) =
   dict_pairs (disabled_clouds a) \<union> {(fst t, c) |c r. res = Some (c, False, r)}"
  by (auto simp: aggregate_step_def dict_pairs_setdefault_append Let_def
           split: option.splits reason.splits)


lemma foldl_aggregate_enabled:
  "dict_pairs (enabled_clouds (foldl aggregate_step a items)) =
   dict_pairs (enabled_clouds a) \<union>
   {(fst t, c) |t c' c r. ((t, c'), Some (c, True, r)) \<in> set items}"
proof (induction items arbitrary: a)
  case Nil
  then show ?case by simp
next
  case (Cons item items)
  obtain n obj c' res where item: "item = (((n, obj), c'), res)" by (metis surj_pair)
  show ?case unfolding item foldl_Cons Cons.IH aggregate_step_enabled by auto blast+
qed

lemma foldl_aggregate_disabled:
  "dict_pairs (disabled_clouds (foldl aggregate_step a items)) =
   dict_pairs (disabled_clouds a) \<union>
   {(fst t, c) |t c' c r. ((t, c'), Some (c, False, r)) \<in> set items}"
proof (induction items arbitrary: a)
  case Nil
  then show ?case by simp
next
  case (Cons item items)
  obtain n obj c' res where item: "item = (((n, obj), c'), res)" by (metis surj_pair)
  show ?case unfolding item foldl_Cons Cons.IH aggregate_step_disabled by auto blast+
qed


lemma zip_run_in_parallel:
  "set (zip combinations (run_in_parallel f combinations)) = (\<lambda>p. (p, f p)) ` set combinations"
  by (induction combinations) (auto simp: run_in_parallel_def)

lemma clouds_with_pairs:
  "clouds_with d c = {n. (n, c) \<in> dict_pairs d \<and> \<not> startswith n ''Cloudflare''}"
  by (force simp: clouds_with_def dict_pairs_def)

lemma pass_aggregate_enabled:
  "(n, c) \<in> dict_pairs (enabled_clouds (pass_aggregate e tuples caps)) \<longleftrightarrow>
   c \<in> set caps \<and> (\<exists>t\<in>set tuples. fst t = n \<and> probe_passes e (t, c))"
proof
  assume "(n, c) \<in> dict_pairs (enabled_clouds (pass_aggregate e tuples caps))"
  then obtain t c' r where t: "t \<in> set tuples" "c' \<in> set caps" "fst t = n"
    and out: "check_one_cloud_one_capability e (t, c') = Some (c, True, r)"
    unfolding pass_aggregate_def Let_def aggregate_results_def foldl_aggregate_enabled
      zip_run_in_parallel
    by (auto simp: empty_aggregate_def dict_pairs_Nil) (metis fst_conv)
  from check_one_Some [OF out] have "c = c'" "probe_passes e (t, c')" by simp_all
  with t show "c \<in> set caps \<and> (\<exists>t\<in>set tuples. fst t = n \<and> probe_passes e (t, c))" by blast
next
  assume "c \<in> set caps \<and> (\<exists>t\<in>set tuples. fst t = n \<and> probe_passes e (t, c))"
  then obtain t where t: "c \<in> set caps" "t \<in> set tuples" "fst t = n" "probe_passes e (t, c)"
    by blast
  from probe_passes_Some [OF t(4)] obtain r
    where "check_one_cloud_one_capability e (t, c) = Some (c, True, r)" by blast
  then have "((t, c), Some (c, True, r)) \<in>
             (\<lambda>p. (p, check_one_cloud_one_capability e p)) ` set (List.product tuples caps)"
    using t by force
  then have "(fst t, c) \<in> {(fst t, c) |t c' c r. ((t, c'), Some (c, True, r)) \<in>
             (\<lambda>p. (p, check_one_cloud_one_capability e p)) ` set (List.product tuples caps)}"
    by blast
  then show "(n, c) \<in> dict_pairs (enabled_clouds (pass_aggregate e tuples caps))"
    unfolding pass_aggregate_def Let_def aggregate_results_def foldl_aggregate_enabled
      zip_run_in_parallel t(3) [symmetric]
    by blast
qed

lemma pass_aggregate_disabled:
  "(n, c) \<in> dict_pairs (disabled_clouds (pass_aggregate e tuples caps)) \<longleftrightarrow>
   c \<in> set caps \<and> (\<exists>t\<in>set tuples. fst t = n \<and> probe_fails e (t, c))"
proof
  assume "(n, c) \<in> dict_pairs (disabled_clouds (pass_aggregate e tuples caps))"
  then obtain t c' r where t: "t \<in> set tuples" "c' \<in> set caps" "fst t = n"
    and out: "check_one_cloud_one_capability e (t, c') = Some (c, False, r)"
    unfolding pass_aggregate_def Let_def aggregate_results_def foldl_aggregate_disabled
      zip_run_in_parallel
    by (auto simp: empty_aggregate_def dict_pairs_Nil) (metis fst_conv)
  from check_one_Some [OF out] have "c = c'" "probe_fails e (t, c')" by simp_all
  with t show "c \<in> set caps \<and> (\<exists>t\<in>set tuples. fst t = n \<and> probe_fails e (t, c))" by blast
next
  assume "c \<in> set caps \<and> (\<exists>t\<in>set tuples. fst t = n \<and> probe_fails e (t, c))"
  then obtain t where t: "c \<in> set caps" "t \<in> set tuples" "fst t = n" "probe_fails e (t, c)"
    by blast
  from probe_fails_Some [OF t(4)] obtain r
    where "check_one_cloud_one_capability e (t, c) = Some (c, False, r)" by blast
  then have "((t, c), Some (c, False, r)) \<in>
             (\<lambda>p. (p, check_one_cloud_one_capability e p)) ` set (List.product tuples caps)"
    using t by force
  then have "(fst t, c) \<in> {(fst t, c) |t c' c r. ((t, c'), Some (c, False, r)) \<in>
             (\<lambda>p. (p, check_one_cloud_one_capability e p)) ` set (List.product tuples caps)}"
    by blast
  then show "(n, c) \<in> dict_pairs (disabled_clouds (pass_aggregate e tuples caps))"
    unfolding pass_aggregate_def Let_def aggregate_results_def foldl_aggregate_disabled
      zip_run_in_parallel t(3) [symmetric]
    by blast
qed


lemma clouds_with_enabled:
  "clouds_with (enabled_clouds (pass_aggregate e tuples caps)) c =
   (if c \<in> set caps then not_pseudo (passed_this_pass e tuples c) else {})"
  unfolding clouds_with_pairs pass_aggregate_enabled
  by (force simp: not_pseudo_def passed_this_pass_def)

lemma clouds_with_disabled:
  "clouds_with (disabled_clouds (pass_aggregate e tuples caps)) c =
   (if c \<in> set caps then not_pseudo (failed_this_pass e tuples c) else {})"
  unfolding clouds_with_pairs pass_aggregate_disabled
  by (force simp: not_pseudo_def failed_this_pass_def)

lemma reconcile_cache:
  "cache w1 c = cache w2 c \<Longrightarrow> reconcile names a w1 c = reconcile names a w2 c"
  by (simp add: reconcile_def get_cached_enabled_clouds_def)

lemma reconcile_again:
  "reconcile names a (set_enabled_clouds (reconcile names a w c) c w) c' = reconcile names a w c'"
  by (auto simp: reconcile_def get_cached_enabled_clouds_def set_enabled_clouds_def
        enabled_clouds_for_capability_def)

lemma reconcile_loop_result:
  "reconcile_loop names a caps (U, w) =
     (U \<union> (\<Union>c\<in>set caps. reconcile names a w c),
      w\<lparr>cache := (\<lambda>c. if c \<in> set caps then reconcile names a w c else cache w c),
        set_calls := set_calls w @ map (\<lambda>c. (reconcile names a w c, c)) caps\<rparr>)"
proof (induction caps arbitrary: U w)
  case Nil
  then show ?case by simp
next
  case (Cons c caps)
  let ?w1 = "set_enabled_clouds (reconcile names a w c) c w"
  have again: "\<And>c'. reconcile names a ?w1 c' = reconcile names a w c'"
    by (rule reconcile_again)
  have "reconcile_loop names a (c # caps) (U, w) =
        reconcile_loop names a caps (U \<union> reconcile names a w c, ?w1)"
    by (simp add: Let_def)
  also have "\<dots> = (U \<union> reconcile names a w c \<union> (\<Union>c\<in>set caps. reconcile names a ?w1 c),
      ?w1\<lparr>cache := (\<lambda>c. if c \<in> set caps then reconcile names a ?w1 c else cache ?w1 c),
        set_calls := set_calls ?w1 @ map (\<lambda>c. (reconcile names a ?w1 c, c)) caps\<rparr>)"
    by (rule Cons.IH)
  also have "\<dots> = (U \<union> (\<Union>c\<in>set (c # caps). reconcile names a w c),
      w\<lparr>cache := (\<lambda>c'. if c' \<in> set (c # caps) then reconcile names a w c' else cache w c'),
        set_calls := set_calls w @ map (\<lambda>c. (reconcile names a w c, c)) (c # caps)\<rparr>)"
    unfolding again by (auto simp: set_enabled_clouds_def fun_eq_iff)
  finally show ?case .
qed

lemma check_capabilities_run:
  assumes "clouds_to_check e clouds = Inr (tuples, names)"
  shows "check_capabilities e w quiet verbose clouds capabilities_arg =
     (let caps = requested_capabilities capabilities_arg;
          a = pass_aggregate e tuples caps
      in (if (\<Union>c\<in>set caps. reconcile names a w c) = {} then Inl SystemExit
          else Inr (enabled_clouds a),
          w\<lparr>probes := probes w @ map (\<lambda>(t, c). (snd t, c)) (List.product tuples caps),
            printed := printed w @
              map (\<lambda>(t, rs). (quiet, verbose, t, rs, dict_get (cloud2ctx2text a) (fst t) []))
                  (sort_key (\<lambda>item. fst (fst item)) (check_results_dict a)),
            cache := (\<lambda>c. if c \<in> set caps then reconcile names a w c else cache w c),
            set_calls := set_calls w @ map (\<lambda>c. (reconcile names a w c, c)) caps\<rparr>))"
proof -
  let ?caps = "requested_capabilities capabilities_arg"
  let ?a = "pass_aggregate e tuples ?caps"
  let ?w1 = "w\<lparr>probes := probes w @ map (\<lambda>(t, c). (snd t, c)) (List.product tuples ?caps)\<rparr>"
  let ?w2 = "print_checked_clouds quiet verbose ?a ?w1"
  have same: "\<And>c. reconcile names ?a ?w2 c = reconcile names ?a w c"
    by (rule reconcile_cache) (simp add: print_checked_clouds_def)
  have d: "dispatch e (List.product tuples ?caps) w =
           (run_in_parallel (check_one_cloud_one_capability e) (List.product tuples ?caps), ?w1)"
    by (simp add: dispatch_def)
  have a: "aggregate_results (List.product tuples ?caps)
             (run_in_parallel (check_one_cloud_one_capability e) (List.product tuples ?caps)) = ?a"
    by (simp add: pass_aggregate_def Let_def)
  have "check_capabilities e w quiet verbose clouds capabilities_arg =
        (let (U, w3) = reconcile_loop names ?a ?caps ({}, ?w2)
         in if U = {} then (Inl SystemExit, w3) else (Inr (enabled_clouds ?a), w3))"
    unfolding check_capabilities_def assms by (simp add: Let_def d a split: prod.split)
  also have "\<dots> = (if (\<Union>c\<in>set ?caps. reconcile names ?a w c) = {} then Inl SystemExit
          else Inr (enabled_clouds ?a),
          ?w2\<lparr>cache := (\<lambda>c. if c \<in> set ?caps then reconcile names ?a w c else cache ?w2 c),
            set_calls := set_calls ?w2 @ map (\<lambda>c. (reconcile names ?a w c, c)) ?caps\<rparr>)"
    unfolding reconcile_loop_result same by simp
  finally show ?thesis
    by (simp add: Let_def print_checked_clouds_def cong: if_cong)
qed

subsection \<open>A run that gets past the matrix\<close>

lemma config_allowed_not_pseudo: "config_allowed_clouds_set names = not_pseudo (set names)"
  by (auto simp: config_allowed_clouds_set_def not_pseudo_def)

lemma reconcile_pass:
  assumes "c \<in> set caps"
  shows "reconcile names (pass_aggregate e tuples caps) w c =
         not_pseudo (set names) \<inter>
           ((cache w c \<union> not_pseudo (passed_this_pass e tuples c)) -
            not_pseudo (failed_this_pass e tuples c))"
  using assms
  by (simp add: reconcile_def Let_def clouds_with_enabled clouds_with_disabled
        config_allowed_not_pseudo get_cached_enabled_clouds_def enabled_clouds_for_capability_def)

lemma run_cache:
  assumes "clouds_to_check e clouds = Inr (tuples, names)"
    and "c \<in> set (requested_capabilities capabilities_arg)"
  shows "cache (snd (check_capabilities e w quiet verbose clouds capabilities_arg)) c =
         not_pseudo (set names) \<inter>
           ((cache w c \<union> not_pseudo (passed_this_pass e tuples c)) -
            not_pseudo (failed_this_pass e tuples c))"
  using assms(2) by (simp add: check_capabilities_run [OF assms(1)] Let_def reconcile_pass)

lemma run_set_calls:
  assumes "clouds_to_check e clouds = Inr (tuples, names)"
  shows "set_calls (snd (check_capabilities e w quiet verbose clouds capabilities_arg)) =
         set_calls w @
         map (\<lambda>c. (not_pseudo (set names) \<inter>
                    ((cache w c \<union> not_pseudo (passed_this_pass e tuples c)) -
                     not_pseudo (failed_this_pass e tuples c)), c))
             (requested_capabilities capabilities_arg)"
  by (simp add: check_capabilities_run [OF assms] Let_def reconcile_pass cong: map_cong)


subsection \<open>The persisted state\<close>

text \<open>
  C1. For every requested capability, the state persisted by a run is the allow-list
  intersected with the previously enabled clouds plus those that passed minus those that
  failed, each of these sets taken without the pseudo-providers; no name that starts with
  Cloudflare is in it; and it is what the run passed to \<^verbatim>\<open>set_enabled_clouds\<close>.
\<close>

theorem persisted_enabled_state:
  assumes "clouds_to_check e clouds = Inr (tuples, names)"
    and "capability \<in> set (requested_capabilities capabilities_arg)"
  shows "cache (snd (check_capabilities e w quiet verbose clouds capabilities_arg)) capability =
           not_pseudo (set names) \<inter>
             ((not_pseudo (cache w capability) \<union>
               not_pseudo (passed_this_pass e tuples capability)) -
              not_pseudo (failed_this_pass e tuples capability)) \<and>
         (\<forall>cloud\<in>cache (snd (check_capabilities e w quiet verbose clouds capabilities_arg))
                       capability. \<not> startswith cloud ''Cloudflare'') \<and>
         (cache (snd (check_capabilities e w quiet verbose clouds capabilities_arg)) capability,
          capability)
           \<in> set (drop (length (set_calls w))
                  (set_calls (snd (check_capabilities e w quiet verbose clouds capabilities_arg))))"
proof -
  let ?w' = "snd (check_capabilities e w quiet verbose clouds capabilities_arg)"
  let ?new = "not_pseudo (set names) \<inter>
           ((cache w capability \<union> not_pseudo (passed_this_pass e tuples capability)) -
            not_pseudo (failed_this_pass e tuples capability))"
  have c: "cache ?w' capability = ?new" by (rule run_cache [OF assms])
  have "?new = not_pseudo (set names) \<inter>
             ((not_pseudo (cache w capability) \<union>
               not_pseudo (passed_this_pass e tuples capability)) -
              not_pseudo (failed_this_pass e tuples capability))"
    by (auto simp: not_pseudo_def)
  moreover have "\<forall>cloud\<in>?new. \<not> startswith cloud ''Cloudflare''"
    by (auto simp: not_pseudo_def)
  moreover have "(?new, capability) \<in> set (drop (length (set_calls w)) (set_calls ?w'))"
    using assms(2) by (auto simp: run_set_calls [OF assms(1)])
  ultimately show ?thesis unfolding c by blast
qed

theorem persisted_enabled_state_witness:
  "clouds_to_check example_env None =
     Inr ([(''AWS'', Cloud ''AWS''), (''GCP'', Cloud ''GCP''), (''Cloudflare'', CloudflareModule)],
          [''AWS'', ''Cloudflare'', ''GCP'']) \<and>
   COMPUTE \<in> set (requested_capabilities None) \<and>
   cache (snd (check_capabilities example_env (cached_world {''GCP'', ''Cloudflare''})
                 True False None None)) COMPUTE = {''AWS''}"
proof -
  let ?tuples = "[(''AWS'', Cloud ''AWS''), (''GCP'', Cloud ''GCP''), (''Cloudflare'', CloudflareModule)]"
  let ?names = "[''AWS'', ''Cloudflare'', ''GCP'']"
  have h1: "clouds_to_check example_env None = Inr (?tuples, ?names)"
    by code_simp
  have h2: "COMPUTE \<in> set (requested_capabilities None)"
    by code_simp
  have v: "not_pseudo (set ?names) \<inter>
             ((not_pseudo (cache (cached_world {''GCP'', ''Cloudflare''}) COMPUTE) \<union>
               not_pseudo (passed_this_pass example_env ?tuples COMPUTE)) -
              not_pseudo (failed_this_pass example_env ?tuples COMPUTE)) = {''AWS''}"
    by code_simp
  show ?thesis
    using persisted_enabled_state [OF h1 h2, of "cached_world {''GCP'', ''Cloudflare''}" True False]
      h1 h2 v by simp
qed

subsection \<open>The allow-list bounds the persisted state\<close>

lemma clouds_to_check_names:
  "clouds_to_check e clouds = Inr (tuples, names) \<Longrightarrow>
   config_allowed_cloud_names e = Inr names \<and> (\<forall>t\<in>set tuples. fst t \<in> set names)"
  by (auto simp: clouds_to_check_def Let_def split: sum.splits)

text \<open>
  C2. For every requested capability, the state a run persists is a subset of the resolved
  allow-list \<^verbatim>\<open>config_allowed_cloud_names\<close>: a name that is not in the allow-list is
  not in the persisted state, whatever the check of that provider would return.
\<close>

theorem enabled_within_allow_list:
  assumes "clouds_to_check e clouds = Inr (tuples, names)"
    and "capability \<in> set (requested_capabilities capabilities_arg)"
  shows "config_allowed_cloud_names e = Inr names \<and>
         cache (snd (check_capabilities e w quiet verbose clouds capabilities_arg)) capability
           \<subseteq> set names \<and>
         (\<forall>cloud. cloud \<notin> set names \<longrightarrow>
            cloud \<notin> cache (snd (check_capabilities e w quiet verbose clouds capabilities_arg))
                       capability)"
proof -
  have "cache (snd (check_capabilities e w quiet verbose clouds capabilities_arg)) capability
           \<subseteq> set names"
    unfolding run_cache [OF assms] by (auto simp: not_pseudo_def)
  with clouds_to_check_names [OF assms(1)] show ?thesis by blast
qed

theorem enabled_within_allow_list_witness:
  "clouds_to_check restricted_env None = Inr ([(''GCP'', Cloud ''GCP'')], [''GCP'']) \<and>
   COMPUTE \<in> set (requested_capabilities None) \<and>
   probe_passes restricted_env ((''AWS'', Cloud ''AWS''), COMPUTE) \<and>
   ''AWS'' \<notin> set [''GCP''] \<and>
   ''AWS'' \<notin> cache (snd (check_capabilities restricted_env (cached_world {''AWS''})
                           True False None None)) COMPUTE"
proof -
  have h1: "clouds_to_check restricted_env None = Inr ([(''GCP'', Cloud ''GCP'')], [''GCP''])"
    by code_simp
  have h2: "COMPUTE \<in> set (requested_capabilities None)"
    by code_simp
  have h3: "probe_passes restricted_env ((''AWS'', Cloud ''AWS''), COMPUTE)"
    by code_simp
  have h4: "''AWS'' \<notin> set [''GCP'']" by simp
  show ?thesis
    using enabled_within_allow_list [OF h1 h2, of "cached_world {''AWS''}" True False]
      h1 h2 h3 h4 by blast
qed


subsection \<open>Unknown provider names\<close>

lemma map_raise_Inl:
  "(\<exists>x\<in>set xs. \<exists>err. f x = Inl err) \<Longrightarrow>
   \<exists>x\<in>set xs. \<exists>err. f x = Inl err \<and> map_raise f xs = Inl err"
proof (induction xs)
  case Nil
  then show ?case by simp
next
  case (Cons x xs)
  show ?case
  proof (cases "f x")
    case (Inl err)
    then show ?thesis by simp
  next
    case (Inr y)
    with Cons.prems have "\<exists>x\<in>set xs. \<exists>err. f x = Inl err" by auto
    from Cons.IH [OF this] obtain x' err where "x' \<in> set xs" "f x' = Inl err"
      "map_raise f xs = Inl err" by blast
    with Inr show ?thesis by auto
  qed
qed

text \<open>
  C9. When a requested name is no Cloudflare name and the registry does not find it, the
  run ends with the assertion error of \<^verbatim>\<open>get_cloud_tuple\<close> for such a name, and the
  state is the one the run started with: no probe was called and the cache was not written.
\<close>

theorem unresolvable_provider_fails_fast:
  assumes "cloud_name \<in> set cloud_list"
    and "\<not> startswith (lower cloud_name) ''cloudflare''"
    and "registry_from_str e cloud_name = None"
  shows "\<exists>name\<in>set cloud_list.
           \<not> startswith (lower name) ''cloudflare'' \<and> registry_from_str e name = None \<and>
           check_capabilities e w quiet verbose (Some cloud_list) capabilities_arg =
             (Inl (AssertionError name), w)"
proof -
  have "get_cloud_tuple e cloud_name = Inl (AssertionError cloud_name)"
    using assms(2,3) by (simp add: get_cloud_tuple_def)
  with assms(1) have "\<exists>x\<in>set cloud_list. \<exists>err. get_cloud_tuple e x = Inl err" by blast
  from map_raise_Inl [OF this] obtain name err where n: "name \<in> set cloud_list"
    "get_cloud_tuple e name = Inl err" "map_raise (get_cloud_tuple e) cloud_list = Inl err"
    by blast
  from n(2) have "err = AssertionError name \<and> \<not> startswith (lower name) ''cloudflare'' \<and>
      registry_from_str e name = None"
    by (auto simp: get_cloud_tuple_def split: if_splits option.splits)
  moreover have "check_capabilities e w quiet verbose (Some cloud_list) capabilities_arg =
             (Inl err, w)"
    by (simp add: check_capabilities_def clouds_to_check_def n(3))
  ultimately show ?thesis using n(1) by blast
qed

theorem unresolvable_provider_fails_fast_witness:
  "''azure'' \<in> set [''aws'', ''azure'', ''gcp''] \<and>
   \<not> startswith (lower ''azure'') ''cloudflare'' \<and>
   registry_from_str example_env ''azure'' = None \<and>
   check_capabilities example_env (cached_world {''AWS''}) False False
     (Some [''aws'', ''azure'', ''gcp'']) None =
     (Inl (AssertionError ''azure''), cached_world {''AWS''})"
proof -
  have h1: "''azure'' \<in> set [''aws'', ''azure'', ''gcp'']" by simp
  have h2: "\<not> startswith (lower ''azure'') ''cloudflare''" by code_simp
  have h3: "registry_from_str example_env ''azure'' = None" by code_simp
  have a: "registry_from_str example_env ''aws'' \<noteq> None" by code_simp
  have g: "registry_from_str example_env ''gcp'' \<noteq> None" by code_simp
  from unresolvable_provider_fails_fast [OF h1 h2 h3, of "cached_world {''AWS''}" False False None]
  show ?thesis using h1 h2 h3 a g by auto
qed

subsection \<open>One cache write per capability\<close>





subsection \<open>No cloud enabled\<close>




subsection \<open>Failures stay with their probe\<close>








subsection \<open>The dispatcher\<close>

text \<open>
  C5. The dispatcher returns one optional outcome per pair, in the order of the pairs, so
  that zipping the pairs with the results pairs each with its own; the result of a pair is
  None exactly when its check raises NotSupportedError, and otherwise one outcome for the
  capability of the pair; every pair is probed once; and no pair gives no result.
\<close>

theorem dispatcher_one_result_per_pair:
  "(let (check_results, w') = dispatch e combinations w
    in length check_results = length combinations \<and>
       zip combinations check_results =
         map (\<lambda>p. (p, check_one_cloud_one_capability e p)) combinations \<and>
       (\<forall>i<length combinations.
          (check_results ! i = None) =
          (check_credentials e (snd (fst (combinations ! i))) (snd (combinations ! i)) =
             Raises NotSupportedError)) \<and>
       (\<forall>i<length combinations.
          check_credentials e (snd (fst (combinations ! i))) (snd (combinations ! i)) \<noteq>
             Raises NotSupportedError \<longrightarrow>
          (\<exists>ok reason. check_results ! i = Some (snd (combinations ! i), ok, reason))) \<and>
       probes w' = probes w @ map (\<lambda>p. (snd (fst p), snd p)) combinations) \<and>
   fst (dispatch e [] w) = []"
proof -
  let ?rs = "map (check_one_cloud_one_capability e) combinations"
  have d: "dispatch e combinations w =
           (?rs, w\<lparr>probes := probes w @ map (\<lambda>p. (snd (fst p), snd p)) combinations\<rparr>)"
    by (simp add: dispatch_def run_in_parallel_def split_def)
  have z: "zip combinations ?rs = map (\<lambda>p. (p, check_one_cloud_one_capability e p)) combinations"
    by (induction combinations) auto
  have n: "\<forall>i<length combinations.
          (?rs ! i = None) =
          (check_credentials e (snd (fst (combinations ! i))) (snd (combinations ! i)) =
             Raises NotSupportedError)"
  proof (intro allI impI)
    fix i assume "i < length combinations"
    then have "?rs ! i = check_one_cloud_one_capability e (fst (combinations ! i), snd (combinations ! i))"
      by simp
    then show "(?rs ! i = None) =
          (check_credentials e (snd (fst (combinations ! i))) (snd (combinations ! i)) =
             Raises NotSupportedError)"
      by (simp only: check_one_None)
  qed
  have s: "\<forall>i<length combinations.
          check_credentials e (snd (fst (combinations ! i))) (snd (combinations ! i)) \<noteq>
             Raises NotSupportedError \<longrightarrow>
          (\<exists>ok reason. ?rs ! i = Some (snd (combinations ! i), ok, reason))"
  proof (intro allI impI)
    fix i assume i: "i < length combinations"
      and "check_credentials e (snd (fst (combinations ! i))) (snd (combinations ! i)) \<noteq>
             Raises NotSupportedError"
    with n obtain c ok reason where o: "?rs ! i = Some (c, ok, reason)"
      by (cases "?rs ! i") auto
    from i have "?rs ! i = check_one_cloud_one_capability e (fst (combinations ! i), snd (combinations ! i))"
      by simp
    with o check_one_Some have "c = snd (combinations ! i)" by metis
    with o show "\<exists>ok reason. ?rs ! i = Some (snd (combinations ! i), ok, reason)" by blast
  qed
  have e: "fst (dispatch e [] w) = []" by (simp add: dispatch_def run_in_parallel_def)
  show ?thesis unfolding d using z n s e by simp
qed


theorem dispatcher_one_result_per_pair_witness:
  "(0::nat) < length [((''GCP'', Cloud ''GCP''), COMPUTE), ((''Cloudflare'', CloudflareModule), COMPUTE)] \<and>
   check_credentials example_env (Cloud ''GCP'') COMPUTE \<noteq> Raises NotSupportedError \<and>
   (\<exists>ok reason.
      fst (dispatch example_env
             [((''GCP'', Cloud ''GCP''), COMPUTE), ((''Cloudflare'', CloudflareModule), COMPUTE)]
             empty_world) ! 0 = Some (COMPUTE, ok, reason)) \<and>
   length (fst (dispatch example_env
             [((''GCP'', Cloud ''GCP''), COMPUTE), ((''Cloudflare'', CloudflareModule), COMPUTE)]
             empty_world)) = 2"
proof -
  let ?combinations =
    "[((''GCP'', Cloud ''GCP''), COMPUTE), ((''Cloudflare'', CloudflareModule), COMPUTE)]"
  have h1: "(0::nat) < length ?combinations" by simp
  have h2: "check_credentials example_env (Cloud ''GCP'') COMPUTE \<noteq> Raises NotSupportedError"
    by (simp add: example_env_def)
  note t = dispatcher_one_result_per_pair [of example_env ?combinations empty_world]
  from t have len: "length (fst (dispatch example_env ?combinations empty_world)) =
                    length ?combinations"
    unfolding split_def Let_def by blast
  from t have "\<forall>i<length ?combinations.
      check_credentials example_env (snd (fst (?combinations ! i))) (snd (?combinations ! i)) \<noteq>
        Raises NotSupportedError \<longrightarrow>
      (\<exists>ok reason. fst (dispatch example_env ?combinations empty_world) ! i =
                     Some (snd (?combinations ! i), ok, reason))"
    unfolding split_def Let_def by blast
  from this [rule_format, OF h1] h2
  have "\<exists>ok reason. fst (dispatch example_env ?combinations empty_world) ! 0 =
                     Some (COMPUTE, ok, reason)"
    by simp
  with h1 h2 len show ?thesis by simp
qed

subsection \<open>Cached clouds, or a refresh\<close>




lemma map_raise_error:
  "map_raise f xs = Inl err \<Longrightarrow> \<exists>x\<in>set xs. f x = Inl err"
  by (induction xs arbitrary: err) (auto split: sum.splits)

lemma clouds_to_check_error:
  assumes "clouds_to_check e clouds = Inl err"
  shows "\<exists>name. err = AssertionError name"
proof -
  from assms have "\<exists>xs. map_raise (get_cloud_tuple e) xs = Inl err"
    by (auto simp: clouds_to_check_def config_allowed_cloud_names_def Let_def split: sum.splits)
  then obtain xs x where "x \<in> set xs" "get_cloud_tuple e x = Inl err"
    using map_raise_error by meson
  then show ?thesis by (auto simp: get_cloud_tuple_def split: if_splits option.splits)
qed

lemma refresh_propagates_assertion:
  assumes "cache w capability = {}" and "clouds_to_check e None = Inl err"
  shows "\<exists>name. err = AssertionError name \<and>
           get_cached_enabled_clouds_or_refresh e w capability raise_if_no_cloud_access =
             (Inl (AssertionError name), w)"
proof -
  from clouds_to_check_error [OF assms(2)] obtain name where n: "err = AssertionError name"
    by blast
  with assms show ?thesis
    by (simp add: get_cached_enabled_clouds_or_refresh_def get_cached_enabled_clouds_def
        check_capability_def check_capabilities_def Let_def)
qed



end
